theory Spec2Isabelle
  imports Main "HOL-Library.Product_Lexorder" "HOL-Library.Multiset"
begin

section \<open>Python strings\<close>

text \<open>
  A Python \<open>str\<close> is modelled as a \<open>string\<close>: the character with code \<open>n\<close> stands
  for the code point \<open>n\<close>, so the model covers the code points below 256. The tables
  below (\<open>str.isspace\<close>, the word characters of \<open>re\<close>, \<open>str.lower\<close>) are CPython's,
  restricted to that range.
\<close>

definition code :: "char \<Rightarrow> nat" where
  "code c = of_char c"

definition is_space :: "char \<Rightarrow> bool" where
  \<comment> \<open>\<open>str.isspace\<close> and \<open>\s\<close>: TAB..CR, FS..US, space, NEL, NBSP\<close>
  "is_space c = (let n = code c in
     (9 \<le> n \<and> n \<le> 13) \<or> (28 \<le> n \<and> n \<le> 32) \<or> n = 133 \<or> n = 160)"

definition is_digit :: "char \<Rightarrow> bool" where
  "is_digit c = (let n = code c in 48 \<le> n \<and> n \<le> 57)"

definition is_lower_az :: "char \<Rightarrow> bool" where
  "is_lower_az c = (let n = code c in 97 \<le> n \<and> n \<le> 122)"

definition is_upper_az :: "char \<Rightarrow> bool" where
  "is_upper_az c = (let n = code c in 65 \<le> n \<and> n \<le> 90)"

definition lstrip :: "string \<Rightarrow> string" where
  "lstrip s = dropWhile is_space s"

definition rstrip :: "string \<Rightarrow> string" where
  "rstrip s = rev (dropWhile is_space (rev s))"

definition strip :: "string \<Rightarrow> string" where
  \<comment> \<open>\<open>s.strip()\<close>\<close>
  "strip s = rstrip (lstrip s)"

section \<open>Table normalisation\<close>

subsection \<open>Header cleaning (the steps of \<open>clean_header\<close>)\<close>

function sub_slash :: "string \<Rightarrow> string" where
  \<comment> \<open>\<open>re.sub(r"\s*/\s*", "_|_", header)\<close>: the leftmost match starts at the first
      position from which a run of whitespace is followed by a slash, and it takes
      all the whitespace after the slash\<close>
  "sub_slash [] = []"
| "sub_slash (c # cs) =
     (case dropWhile is_space (c # cs) of
        [] \<Rightarrow> c # sub_slash cs
      | x # rest \<Rightarrow>
          if x = CHR ''/'' then ''_|_'' @ sub_slash (dropWhile is_space rest)
          else c # sub_slash cs)"
  by pat_completeness auto
termination
proof (relation "measure length")
  show "wf (measure length)" by simp
next
  fix c :: char and cs :: string
  show "(cs, c # cs) \<in> measure length" by simp
next
  fix c :: char and cs :: string and x :: char and rest :: string
  assume a: "dropWhile is_space (c # cs) = x # rest"
  have "length (dropWhile is_space rest) \<le> length rest"
    by (rule length_dropWhile_le)
  moreover have "length (x # rest) \<le> length (c # cs)"
    using a length_dropWhile_le [of is_space "c # cs"] by simp
  ultimately show "(dropWhile is_space rest, c # cs) \<in> measure length"
    by simp
next
  fix c :: char and cs :: string and x :: char and rest :: string
  show "(cs, c # cs) \<in> measure length" by simp
qed

definition is_word :: "char \<Rightarrow> bool" where
  \<comment> \<open>\<open>\w\<close> of a \<open>str\<close> pattern: alphanumeric (\<open>str.isalnum\<close>) or underscore\<close>
  "is_word c = (let n = code c in
     is_digit c \<or> is_upper_az c \<or> is_lower_az c \<or> n = 95 \<or>
     n = 170 \<or> n = 178 \<or> n = 179 \<or> n = 181 \<or> n = 185 \<or> n = 186 \<or>
     (188 \<le> n \<and> n \<le> 190) \<or> (192 \<le> n \<and> n \<le> 214) \<or>
     (216 \<le> n \<and> n \<le> 246) \<or> 248 \<le> n)"

fun sub_no :: "bool \<Rightarrow> string \<Rightarrow> string" where
  \<comment> \<open>\<open>re.sub(r"\bno\.?\b", "number", header, flags=re.IGNORECASE)\<close>; the flag says
      whether the character before the current position is a word character.
      After \<open>no\<close> the optional dot is tried first: it is taken when a word
      character follows it, otherwise the match ends before the dot.\<close>
  "sub_no pw [] = []"
| "sub_no pw [c] = [c]"
| "sub_no pw (c # d # rest) =
     (if \<not> pw \<and> (c = CHR ''n'' \<or> c = CHR ''N'') \<and> (d = CHR ''o'' \<or> d = CHR ''O'') then
        (case rest of
           [] \<Rightarrow> ''number''
         | e # rest' \<Rightarrow>
             if e = CHR ''.'' then
               (if rest' \<noteq> [] \<and> is_word (hd rest') then ''number'' @ sub_no False rest'
                else ''number'' @ sub_no True rest)
             else if is_word e then c # sub_no True (d # rest)
             else ''number'' @ sub_no True rest)
      else c # sub_no (is_word c) (d # rest))"

definition lower_char :: "char \<Rightarrow> char" where
  "lower_char c = (let n = code c in
     if (65 \<le> n \<and> n \<le> 90) \<or> (192 \<le> n \<and> n \<le> 222 \<and> n \<noteq> 215)
     then char_of (n + 32) else c)"

definition lower :: "string \<Rightarrow> string" where
  "lower s = map lower_char s"

definition allowed :: "char \<Rightarrow> bool" where
  \<comment> \<open>the class \<open>[a-z0-9|_ ]\<close>\<close>
  "allowed c = (is_lower_az c \<or> is_digit c \<or> c = CHR ''|'' \<or> c = CHR ''_'' \<or> c = CHR '' '')"

definition drop_special :: "string \<Rightarrow> string" where
  \<comment> \<open>\<open>re.sub(r"[^a-z0-9|_ ]", "", header)\<close>\<close>
  "drop_special s = filter allowed s"

definition spaces_to_underscores :: "string \<Rightarrow> string" where
  \<comment> \<open>\<open>header.replace(" ", "_")\<close>\<close>
  "spaces_to_underscores s = map (\<lambda>c. if c = CHR '' '' then CHR ''_'' else c) s"

definition is_us :: "char \<Rightarrow> bool" where
  "is_us c = (c = CHR ''_'')"

function collapse_us :: "string \<Rightarrow> string" where
  \<comment> \<open>\<open>re.sub(r"_+", "_", header)\<close>\<close>
  "collapse_us [] = []"
| "collapse_us (c # cs) =
     (if is_us c then CHR ''_'' # collapse_us (dropWhile is_us cs)
      else c # collapse_us cs)"
  by pat_completeness auto
termination
  by (relation "measure length") (auto simp: less_Suc_eq_le length_dropWhile_le)

definition strip_us :: "string \<Rightarrow> string" where
  \<comment> \<open>\<open>header.strip("_")\<close>\<close>
  "strip_us s = rev (dropWhile is_us (rev (dropWhile is_us s)))"

definition clean_header :: "string \<Rightarrow> string" where
  "clean_header header =
     strip_us (collapse_us (spaces_to_underscores (drop_special (lower
       (sub_no False (sub_slash header))))))"




definition clean_headers :: "string list \<Rightarrow> string list" where
  "clean_headers headers = map clean_header headers"

subsection \<open>Rows to records (\<open>process_table_data\<close>)\<close>

record table_data =
  header :: "string list"
  rows :: "string list list"

text \<open>
  An output record is a dict from cleaned header to the stored value; the stored
  value \<open>None\<close> is Python's \<open>None\<close>. A key that is absent maps to \<open>None\<close> at the
  outer level.
\<close>

type_synonym py_record = "string \<rightharpoonup> string option"

definition fit_cells :: "nat \<Rightarrow> string list \<Rightarrow> string list" where
  \<comment> \<open>\<open>cells = row[:n]\<close>, then padding with \<open>[""] * (n - len(cells))\<close> when shorter\<close>
  "fit_cells n row =
     (let cells = take n row
      in if length cells < n then cells @ replicate (n - length cells) [] else cells)"

definition cell_value :: "string \<Rightarrow> string option" where
  \<comment> \<open>\<open>cell.strip() if cell else None\<close>\<close>
  "cell_value cell = (if cell \<noteq> [] then Some (strip cell) else None)"

definition put_cell :: "string \<times> string \<Rightarrow> py_record \<Rightarrow> py_record" where
  \<comment> \<open>one step of the dict comprehension: the entry \<open>hdr: cell.strip() if cell else None\<close>\<close>
  "put_cell p m = m(fst p \<mapsto> cell_value (snd p))"

definition make_record :: "string list \<Rightarrow> string list \<Rightarrow> py_record" where
  \<comment> \<open>the dict comprehension over \<open>zip(cleaned_headers, cells)\<close>: a later pair
      with the same key overwrites the earlier one\<close>
  "make_record hs cells = fold put_cell (zip hs cells) Map.empty"

fun process_rows :: "string list \<Rightarrow> string list list \<Rightarrow> py_record list" where
  "process_rows hs [] = []"
| "process_rows hs (row # others) =
     (if row = [] then process_rows hs others
      else make_record hs (fit_cells (length hs) row) # process_rows hs others)"

definition process_table_data :: "table_data option \<Rightarrow> py_record list" where
  \<comment> \<open>\<open>None\<close> is a \<open>data\<close> that is \<open>None\<close>, empty, or lacks one of the two keys\<close>
  "process_table_data data =
     (case data of
        None \<Rightarrow> []
      | Some d \<Rightarrow>
          (let cleaned_headers = (if header d \<noteq> [] then clean_headers (header d) else [])
           in if cleaned_headers = [] then [] else process_rows cleaned_headers (rows d)))"

subsection \<open>Reading a table from the page (\<open>extract_table_data\<close>)\<close>

text \<open>
  The parsed markup is represented by what the function reads from it: a cell is
  the list of its text nodes in document order, and \<open>get_text(strip=True)\<close> joins
  the stripped, non-empty ones.
\<close>

type_synonym html_cell = "string list"

definition get_text_strip :: "html_cell \<Rightarrow> string" where
  "get_text_strip nodes = concat (filter (\<lambda>s. s \<noteq> []) (map strip nodes))"

definition blank_cell :: "html_cell \<Rightarrow> bool" where
  \<comment> \<open>a cell that is empty or holds only whitespace\<close>
  "blank_cell nodes = list_all (list_all is_space) nodes"

record html_table =
  thead_th :: "html_cell list option"  \<comment> \<open>the \<open>th\<close> cells of \<open>thead\<close>; \<open>None\<close>: no \<open>thead\<close>\<close>
  thead_td :: "html_cell list"        \<comment> \<open>the \<open>td\<close> cells of \<open>thead\<close>\<close>
  tbody :: "html_cell list list option"  \<comment> \<open>the \<open>td\<close> cells of each \<open>tr\<close> of \<open>tbody\<close>\<close>

datatype py_exception =
    AttributeError | TypeError | TimeoutException | WebDriverException | ValueError string
  | Exception string

definition nonempty_texts :: "html_cell list \<Rightarrow> string list" where
  \<comment> \<open>\<open>[c.get_text(strip=True) for c in cells if c.get_text(strip=True)]\<close>\<close>
  "nonempty_texts cells = filter (\<lambda>s. s \<noteq> []) (map get_text_strip cells)"

fun collect_rows :: "html_cell list list \<Rightarrow> string list list" where
  \<comment> \<open>the loop over \<open>tbody.find_all("tr")\<close>: only non-empty rows are appended\<close>
  "collect_rows [] = []"
| "collect_rows (row # others) =
     (let cells = nonempty_texts row
      in if cells \<noteq> [] then cells # collect_rows others else collect_rows others)"

definition extract_table_data :: "html_table option \<Rightarrow> py_exception + table_data" where
  \<comment> \<open>the argument is the result of \<open>table.find("tbody").find("table")\<close>; reading
      \<open>thead\<close> of a missing table, or the cells of a missing \<open>thead\<close>, raises\<close>
  "extract_table_data table =
     (case table of
        None \<Rightarrow> Inl AttributeError
      | Some t \<Rightarrow>
          (case thead_th t of
             None \<Rightarrow> Inl AttributeError
           | Some ths \<Rightarrow>
               (let header0 = nonempty_texts ths;
                    header1 = (if header0 = [] then nonempty_texts (thead_td t) else header0);
                    rows1 = (case tbody t of None \<Rightarrow> [] | Some trs \<Rightarrow> collect_rows trs)
                in Inr \<lparr>header = header1, rows = rows1\<rparr>)))"

datatype section_page =
    Click_fails                      \<comment> \<open>the button or the table does not show in time\<close>
  | Table_absent                     \<comment> \<open>\<open>soup.find\<close> returns \<open>None\<close>\<close>
  | Table_found "html_table option"

definition extract_table_details :: "section_page \<Rightarrow> table_data option" where
  \<comment> \<open>the call with \<open>nested=False\<close>; every exception is logged and gives \<open>None\<close>\<close>
  "extract_table_details page =
     (case page of
        Click_fails \<Rightarrow> None
      | Table_absent \<Rightarrow> None
      | Table_found table \<Rightarrow>
          (case extract_table_data table of Inl e \<Rightarrow> None | Inr d \<Rightarrow> Some d))"

definition notices :: "section_page \<Rightarrow> py_record list" where
  \<comment> \<open>\<open>notices\<close>; \<open>defects\<close>, \<open>mention_memo\<close>, \<open>office_report\<close>, \<open>tagged_matters\<close>,
      \<open>extract_listing_dates\<close> and \<open>click_and_extract_earlier_court_details\<close> differ
      in the class name of the table only\<close>
  "notices page = process_table_data (extract_table_details page)"

section \<open>The CAPTCHA\<close>

subsection \<open>Python's \<open>str.split\<close> and \<open>int\<close>\<close>

function py_split :: "string \<Rightarrow> string \<Rightarrow> string list" where
  \<comment> \<open>\<open>s.split(sep)\<close> for a separator that is not empty (an empty one raises, and
      the source has none): the string is scanned from the left, a separator
      closes the current part\<close>
  "py_split sep [] = [[]]"
| "py_split sep (c # cs) =
     (if sep \<noteq> [] \<and> take (length sep) (c # cs) = sep
      then [] # py_split sep (drop (length sep) (c # cs))
      else (let parts = py_split sep cs in (c # hd parts) # tl parts))"
  by pat_completeness auto
termination
  by (relation "measure (\<lambda>(sep, s). length s)") auto

text \<open>
  Two things of the interpreter that the source does not fix are parameters of the
  model: the limit on the number of digits that \<open>int\<close> converts
  (\<open>sys.get_int_max_str_digits()\<close>, 0 for no limit), and the message of the
  \<open>ValueError\<close> that \<open>int\<close> raises for a string it rejects.
\<close>

record python =
  int_max_str_digits :: nat
  int_error_text :: "string \<Rightarrow> string"

definition cpython :: python where
  \<comment> \<open>CPython's default limit, and the message as it reads for an operand that
      \<open>repr\<close> prints unchanged between single quotes; used for the examples\<close>
  "cpython = \<lparr>int_max_str_digits = 4300,
     int_error_text = (\<lambda>s. ''invalid literal for int() with base 10: '' @ [CHR 0x27] @ s @ [CHR 0x27])\<rparr>"

fun digit_groups :: "string \<Rightarrow> bool" where
  \<comment> \<open>decimal digits, with single underscores allowed between digits\<close>
  "digit_groups [] = False"
| "digit_groups [c] = is_digit c"
| "digit_groups (c # d # cs) =
     (is_digit c \<and> (if d = CHR ''_'' then digit_groups cs else digit_groups (d # cs)))"

definition decimal :: "string \<Rightarrow> nat" where
  "decimal ds = foldl (\<lambda>a c. 10 * a + (code c - 48)) 0 ds"

definition py_int :: "python \<Rightarrow> string \<Rightarrow> py_exception + int" where
  \<comment> \<open>\<open>int(s)\<close>: surrounding whitespace is dropped, then an optional sign, then the
      digit groups\<close>
  "py_int py s =
     (let t = strip s;
          neg = (t \<noteq> [] \<and> hd t = CHR ''-'');
          body = (if t \<noteq> [] \<and> (hd t = CHR ''-'' \<or> hd t = CHR ''+'') then tl t else t);
          ds = filter is_digit body
      in if \<not> digit_groups body then Inl (ValueError (int_error_text py s))
         else if 0 < int_max_str_digits py \<and> int_max_str_digits py < length ds
         then Inl (ValueError (int_error_text py s))
         else Inr (if neg then - int (decimal ds) else int (decimal ds)))"

definition exc_text :: "py_exception \<Rightarrow> string" where
  \<comment> \<open>\<open>str(e)\<close>\<close>
  "exc_text e = (case e of
       ValueError msg \<Rightarrow> msg
     | Exception msg \<Rightarrow> msg
     | _ \<Rightarrow> [])"

subsection \<open>\<open>solve_expression\<close>\<close>

datatype py_value = PyInt int | PyStr string

definition solve_expression_body :: "python \<Rightarrow> string \<Rightarrow> py_exception + int" where
  \<comment> \<open>the \<open>try\<close> block: \<open>Inl\<close> is the exception it raises\<close>
  "solve_expression_body py text =
     (let parts = (if CHR ''+'' \<in> set text then py_split ''+'' text else py_split ''-'' text);
          operator = (if CHR ''+'' \<in> set text then CHR ''+'' else CHR ''-'');
          operands = map strip parts
      in if length operands \<noteq> 2 then Inl (ValueError ''Invalid expression format'')
         else (case py_int py (operands ! 0) of
                 Inl e \<Rightarrow> Inl e
               | Inr operand1 \<Rightarrow>
                   (case py_int py (operands ! 1) of
                      Inl e \<Rightarrow> Inl e
                    | Inr operand2 \<Rightarrow>
                        Inr (if operator = CHR ''+'' then operand1 + operand2
                             else operand1 - operand2))))"

definition solve_expression :: "python \<Rightarrow> string \<Rightarrow> py_value" where
  \<comment> \<open>the handler turns every exception of the body into the returned string\<close>
  "solve_expression py text =
     (case solve_expression_body py text of
        Inr result \<Rightarrow> PyInt result
      | Inl e \<Rightarrow> PyStr (''Error evaluating expression: '' @ exc_text e))"

definition startswith :: "string \<Rightarrow> string \<Rightarrow> bool" where
  "startswith s p = (take (length p) s = p)"

definition is_error_result :: "py_value \<Rightarrow> bool" where
  \<comment> \<open>\<open>isinstance(result, str) and result.startswith("Error evaluating expression")\<close>\<close>
  "is_error_result result =
     (case result of PyInt n \<Rightarrow> False | PyStr s \<Rightarrow> startswith s ''Error evaluating expression'')"

subsection \<open>\<open>retry_captcha_process\<close>\<close>

text \<open>
  The browser is represented by what each attempt finds. A boolean field says that
  the lines named complete without an exception.
\<close>

datatype 'd table_outcome =
    No_table              \<comment> \<open>no \<open>distTableContent\<close>, or no table in it: the wait raises\<close>
  | Table_raises          \<comment> \<open>\<open>process_table\<close> raises\<close>
  | Table_returns "'d option"  \<comment> \<open>\<open>process_table\<close> returns the data of the first row, or
                                 \<open>None\<close> when the table has no row\<close>

record 'd attempt =
  captcha_image_present :: bool   \<comment> \<open>lines 148 to 153: the image is found and saved\<close>
  extracted_text :: string        \<comment> \<open>what \<open>extract_text_from_image\<close> returns\<close>
  refresh_ok :: bool              \<comment> \<open>lines 166 and 167\<close>
  input_ok :: bool                \<comment> \<open>lines 170 to 173\<close>
  submit_ok :: bool               \<comment> \<open>lines 174 to 177\<close>
  notfound_visible :: bool        \<comment> \<open>the page shows \<open>div.notfound\<close> within 3 seconds\<close>
  results :: "'d table_outcome"

datatype 'd py_result = RNone | RFalse | RData 'd

datatype event =
    Image_read                \<comment> \<open>a call of \<open>extract_text_from_image\<close>\<close>
  | Refresh_clicked
  | Answer_typed py_value     \<comment> \<open>\<open>str(result)\<close> is typed into the answer field\<close>
  | Search_clicked
  | Logged py_exception       \<comment> \<open>an exception caught and logged at line 194 or 197\<close>

datatype py_arg = Arg string | Tuple string string

definition visibility_of_element_located :: "py_arg list \<Rightarrow> py_exception + py_arg" where
  \<comment> \<open>Selenium's expected condition takes one positional argument, the locator;
      a call with any other number of arguments raises \<open>TypeError\<close>\<close>
  "visibility_of_element_located args =
     (case args of [locator] \<Rightarrow> Inr locator | _ \<Rightarrow> Inl TypeError)"

definition wait_notfound :: "'d attempt \<Rightarrow> py_exception + unit" where
  \<comment> \<open>lines 181 to 183: the condition is built from two arguments, \<open>By.XPATH\<close> and
      the path, and then waited for\<close>
  "wait_notfound a =
     (case visibility_of_element_located [Arg ''xpath'', Arg ''//div[@class='notfound']''] of
        Inl e \<Rightarrow> Inl e
      | Inr locator \<Rightarrow>
          if locator = Tuple ''xpath'' ''//div[@class='notfound']'' \<and> notfound_visible a
          then Inr () else Inl TimeoutException)"

definition after_submit :: "'d attempt \<Rightarrow> 'd py_result \<times> event list" where
  \<comment> \<open>lines 179 to 195; after the handler of line 194 the function ends and
      returns \<open>None\<close>\<close>
  "after_submit a =
     (case wait_notfound a of
        Inr u \<Rightarrow> (RFalse, [])
      | Inl e \<Rightarrow>
          (case results a of
             No_table \<Rightarrow> (RNone, [Logged TimeoutException])
           | Table_raises \<Rightarrow> (RNone, [Logged WebDriverException])
           | Table_returns None \<Rightarrow> (RNone, [])
           | Table_returns (Some d) \<Rightarrow> (RData d, [])))"

function retry_captcha_process ::
  "python \<Rightarrow> (nat \<Rightarrow> 'd attempt) \<Rightarrow> nat \<Rightarrow> nat \<Rightarrow> 'd py_result \<times> event list" where
  \<comment> \<open>\<open>driver k\<close> is what attempt \<open>k\<close> finds. The recursive call passes no
      \<open>max_attempts\<close>, so it runs with the default 20, and its result is dropped.\<close>
  "retry_captcha_process py driver attempt max_attempts =
     (if attempt \<ge> max_attempts
      then (RNone, [Logged (Exception ''Max CAPTCHA attempts reached. Please try again.'')])
      else if \<not> captcha_image_present (driver attempt)
      then (RNone, [Logged TimeoutException])
      else
        (let result = solve_expression py (extracted_text (driver attempt))
         in if is_error_result result then
              (if \<not> refresh_ok (driver attempt)
               then (RNone, [Image_read, Logged WebDriverException])
               else (RNone, Image_read # Refresh_clicked #
                      snd (retry_captcha_process py driver (attempt + 1) 20)))
            else if \<not> input_ok (driver attempt)
            then (RNone, [Image_read, Logged TimeoutException])
            else if \<not> submit_ok (driver attempt)
            then (RNone, [Image_read, Answer_typed result, Logged TimeoutException])
            else (fst (after_submit (driver attempt)),
                  Image_read # Answer_typed result # Search_clicked #
                    snd (after_submit (driver attempt)))))"
  by pat_completeness auto
termination
  by (relation "measure (\<lambda>(py, driver, attempt, max_attempts).
        if attempt < max_attempts then 1 + (20 - attempt) else 0)") auto

section \<open>The driver loop\<close>

datatype 'd session =
    Session_fails                   \<comment> \<open>the browser or the search form raises\<close>
  | Session "nat \<Rightarrow> 'd attempt"     \<comment> \<open>the form is filled; what each attempt finds\<close>

definition process_case_details_by_diary_number ::
  "python \<Rightarrow> 'd session \<Rightarrow> py_exception + 'd py_result" where
  \<comment> \<open>the argument is the session that the diary number and the year open; an
      exception outside \<open>retry_captcha_process\<close> is not caught\<close>
  "process_case_details_by_diary_number py s =
     (case s of
        Session_fails \<Rightarrow> Inl WebDriverException
      | Session driver \<Rightarrow> Inr (fst (retry_captcha_process py driver 0 20)))"

record 'd loop_state =
  current_diary_number :: nat
  continuous_empty_case :: nat
  saved :: "('d \<times> nat) list"    \<comment> \<open>the documents inserted, each with its year\<close>

partial_function (option) inner_loop ::
  "python \<Rightarrow> (nat \<Rightarrow> nat \<Rightarrow> 'd session) \<Rightarrow> nat \<Rightarrow> 'd loop_state
     \<Rightarrow> (py_exception + 'd loop_state) option" where
  \<comment> \<open>the \<open>while True\<close> loop of one year; \<open>None\<close>: the loop does not end. The test
      \<open>if op\<close> holds for the data of a case (a dict with the key \<open>details\<close>) and
      fails for \<open>None\<close> and \<open>False\<close>.\<close>
  "inner_loop py site from_year st =
     (case process_case_details_by_diary_number py
             (site (current_diary_number st) from_year) of
        Inl e \<Rightarrow> Some (Inl e)
      | Inr op \<Rightarrow>
          if continuous_empty_case st = 10 then Some (Inr st)
          else
            (case op of
               RData d \<Rightarrow>
                 inner_loop py site from_year
                   (st\<lparr>saved := saved st @ [(d, from_year)],
                       current_diary_number := current_diary_number st + 1\<rparr>)
             | _ \<Rightarrow>
                 inner_loop py site from_year
                   (st\<lparr>continuous_empty_case := continuous_empty_case st + 1,
                       current_diary_number := current_diary_number st + 1\<rparr>)))"


section \<open>Example pages\<close>

definition unreadable :: "nat attempt" where
  \<comment> \<open>the image reads as a product, which \<open>solve_expression\<close> rejects\<close>
  "unreadable = \<lparr>captcha_image_present = True, extracted_text = ''12 * 7'',
     refresh_ok = True, input_ok = True, submit_ok = True, notfound_visible = False,
     results = No_table\<rparr>"

definition found_case :: "nat \<Rightarrow> nat attempt" where
  \<comment> \<open>the image reads as a sum and the search shows a case, whose data is \<open>d\<close>\<close>
  "found_case d = \<lparr>captcha_image_present = True, extracted_text = ''12 + 7'',
     refresh_ok = True, input_ok = True, submit_ok = True, notfound_visible = False,
     results = Table_returns (Some d)\<rparr>"

definition notfound_page :: "nat attempt" where
  \<comment> \<open>the image reads as a sum and the search shows the \<open>notfound\<close> block\<close>
  "notfound_page = \<lparr>captcha_image_present = True, extracted_text = ''12 + 7'',
     refresh_ok = True, input_ok = True, submit_ok = True, notfound_visible = True,
     results = No_table\<rparr>"

definition broken_page :: "nat attempt" where
  \<comment> \<open>the search shows a case, and reading its details raises\<close>
  "broken_page = \<lparr>captcha_image_present = True, extracted_text = ''12 + 7'',
     refresh_ok = True, input_ok = True, submit_ok = True, notfound_visible = False,
     results = Table_raises\<rparr>"


definition solved_at_second :: "nat \<Rightarrow> nat attempt" where
  "solved_at_second k = (if k = 0 then unreadable else found_case 42)"

definition alternating_site :: "nat \<Rightarrow> nat \<Rightarrow> nat session" where
  \<comment> \<open>odd diary numbers are not found, even ones are\<close>
  "alternating_site n year =
     Session (\<lambda>k. if even n then found_case n else notfound_page)"

section \<open>Ordering the downloaded documents\<close>

definition basename :: "string \<Rightarrow> string" where
  \<comment> \<open>\<open>os.path.basename\<close>: what follows the last slash\<close>
  "basename p = rev (takeWhile (\<lambda>c. c \<noteq> CHR ''/'') (rev p))"

function py_replace :: "string \<Rightarrow> string \<Rightarrow> string \<Rightarrow> string" where
  \<comment> \<open>\<open>s.replace(old, new)\<close> for an \<open>old\<close> that is not empty: occurrences are
      replaced from the left, without overlap\<close>
  "py_replace old new [] = []"
| "py_replace old new (c # cs) =
     (if old \<noteq> [] \<and> take (length old) (c # cs) = old
      then new @ py_replace old new (drop (length old) (c # cs))
      else c # py_replace old new cs)"
  by pat_completeness auto
termination
  by (relation "measure (\<lambda>(old, new, s). length s)") auto

text \<open>
  A \<open>datetime\<close> at midnight is its year, month and day, compared in that order.
  \<open>datetime.min\<close> is the first of January of the year 1.
\<close>

type_synonym datetime = "nat \<times> nat \<times> nat"

definition datetime_min :: datetime where
  "datetime_min = (1, 1, 1)"

definition is_leap :: "nat \<Rightarrow> bool" where
  "is_leap y = (y mod 4 = 0 \<and> (y mod 100 \<noteq> 0 \<or> y mod 400 = 0))"

definition days_in_month :: "nat \<Rightarrow> nat \<Rightarrow> nat" where
  "days_in_month y m =
     (if m = 2 then (if is_leap y then 29 else 28)
      else if m = 4 \<or> m = 6 \<or> m = 9 \<or> m = 11 then 30 else 31)"

definition valid_date :: "nat \<Rightarrow> nat \<Rightarrow> nat \<Rightarrow> bool" where
  \<comment> \<open>the checks of the \<open>datetime\<close> constructor\<close>
  "valid_date y m d =
     (1 \<le> y \<and> y \<le> 9999 \<and> 1 \<le> m \<and> m \<le> 12 \<and> 1 \<le> d \<and> d \<le> days_in_month y m)"

definition digit_val :: "char \<Rightarrow> nat" where
  "digit_val c = code c - 48"

definition nonzero_digit :: "char \<Rightarrow> bool" where
  "nonzero_digit c = (let n = code c in 49 \<le> n \<and> n \<le> 57)"

definition parse_day :: "string \<Rightarrow> (nat \<times> string) option" where
  \<comment> \<open>the directive \<open>%d\<close>, with the alternatives of its pattern in their order:
      \<open>3[0-1]\<close>, \<open>[1-2]\d\<close>, \<open>0[1-9]\<close>, \<open>[1-9]\<close>, a space and \<open>[1-9]\<close>; the result is
      the day and the rest of the string\<close>
  "parse_day s =
     (case s of
        [] \<Rightarrow> None
      | [a] \<Rightarrow> if nonzero_digit a then Some (digit_val a, []) else None
      | a # b # rest \<Rightarrow>
          if a = CHR ''3'' \<and> (b = CHR ''0'' \<or> b = CHR ''1'') then Some (30 + digit_val b, rest)
          else if (a = CHR ''1'' \<or> a = CHR ''2'') \<and> is_digit b
          then Some (10 * digit_val a + digit_val b, rest)
          else if a = CHR ''0'' \<and> nonzero_digit b then Some (digit_val b, rest)
          else if nonzero_digit a then Some (digit_val a, b # rest)
          else if a = CHR '' '' \<and> nonzero_digit b then Some (digit_val b, rest)
          else None)"

definition month_names :: "string list" where
  \<comment> \<open>the abbreviated month names of the C locale\<close>
  "month_names = [''jan'', ''feb'', ''mar'', ''apr'', ''may'', ''jun'',
                  ''jul'', ''aug'', ''sep'', ''oct'', ''nov'', ''dec'']"

definition month_of :: "string \<Rightarrow> nat option" where
  \<comment> \<open>the directive \<open>%b\<close>; the match ignores case\<close>
  "month_of s = map_of (zip month_names [1..<13]) (lower s)"

definition strptime_dby :: "string \<Rightarrow> datetime option" where
  \<comment> \<open>\<open>datetime.strptime(s, "%d-%b-%Y")\<close>; \<open>None\<close> is a \<open>ValueError\<close>. After the day
      come a hyphen, three letters of a month, a hyphen and four digits, and
      nothing else.\<close>
  "strptime_dby s =
     (case parse_day s of
        None \<Rightarrow> None
      | Some (d, r) \<Rightarrow>
          if length r = 9 \<and> r ! 0 = CHR ''-'' \<and> r ! 4 = CHR ''-'' \<and>
             list_all is_digit (drop 5 r)
          then (case month_of (take 3 (drop 1 r)) of
                  None \<Rightarrow> None
                | Some m \<Rightarrow>
                    (let y = decimal (drop 5 r)
                     in if valid_date y m d then Some (y, m, d) else None))
          else None)"

definition parse_order_date :: "string \<Rightarrow> datetime option" where
  \<comment> \<open>the \<open>try\<close> block of \<open>extract_date_from_filename\<close>\<close>
  "parse_order_date filename =
     strptime_dby (py_replace ''.pdf'' [] (last (py_split ''Order_'' (basename filename))))"

definition extract_date_from_filename :: "string \<Rightarrow> datetime" where
  "extract_date_from_filename filename =
     (case parse_order_date filename of Some d \<Rightarrow> d | None \<Rightarrow> datetime_min)"

definition sort_pdf_files :: "string list \<Rightarrow> string list" where
  \<comment> \<open>\<open>pdf_files.sort(key=lambda x: extract_date_from_filename(x))\<close>: a stable sort\<close>
  "sort_pdf_files pdf_files = sort_key extract_date_from_filename pdf_files"

definition example_pdf_files :: "string list" where
  "example_pdf_files =
     [''case_pdfs/7_2020/9f3aOrder_05-Jan-2021.pdf'',
      ''case_pdfs/7_2020/51c0Order_20-Mar-2020.pdf'',
      ''case_pdfs/7_2020/b7e2notice.pdf'']"


lemma fold_record_other:
  "k \<notin> set hs \<Longrightarrow>
   fold put_cell (zip hs cells) m k = m k"
proof (induction hs arbitrary: cells m)
  case Nil
  then show ?case by simp
next
  case (Cons h hs)
  then show ?case by (cases cells) (auto simp: put_cell_def)
qed

lemma fold_record_dom:
  "length cells = length hs \<Longrightarrow>
   dom (fold put_cell (zip hs cells) m) = dom m \<union> set hs"
proof (induction hs arbitrary: cells m)
  case Nil
  then show ?case by simp
next
  case (Cons h hs)
  then obtain c cs where cells: "cells = c # cs" and len: "length cs = length hs"
    by (cases cells) auto
  show ?case using Cons.IH [OF len] by (auto simp: cells put_cell_def)
qed

lemma fold_record_at:
  "length cells = length hs \<Longrightarrow> i < length hs \<Longrightarrow> hs ! i \<notin> set (drop (Suc i) hs) \<Longrightarrow>
   fold put_cell (zip hs cells) m (hs ! i)
     = Some (cell_value (cells ! i))"
proof (induction hs arbitrary: cells m i)
  case Nil
  then show ?case by simp
next
  case (Cons h hs)
  then obtain c cs where cells: "cells = c # cs" and len: "length cs = length hs"
    by (cases cells) auto
  show ?case
  proof (cases i)
    case 0
    with Cons.prems have "h \<notin> set hs" by simp
    then show ?thesis
      using 0 by (simp add: cells fold_record_other) (simp add: put_cell_def)
  next
    case (Suc j)
    with Cons.prems have "j < length hs" "hs ! j \<notin> set (drop (Suc j) hs)" by simp_all
    from Cons.IH [OF len this] show ?thesis using Suc by (simp add: cells)
  qed
qed

lemma length_fit_cells: "length (fit_cells n row) = n"
  by (auto simp: fit_cells_def Let_def)

lemma fit_cells_long: "n \<le> length row \<Longrightarrow> fit_cells n row = take n row"
  by (simp add: fit_cells_def Let_def)

lemma fit_cells_short:
  "length row < n \<Longrightarrow> fit_cells n row = row @ replicate (n - length row) []"
  by (simp add: fit_cells_def Let_def)

lemma dom_make_record:
  "length cells = length hs \<Longrightarrow> dom (make_record hs cells) = set hs"
  by (simp add: make_record_def fold_record_dom)

lemma make_record_at:
  "length cells = length hs \<Longrightarrow> i < length hs \<Longrightarrow> hs ! i \<notin> set (drop (Suc i) hs) \<Longrightarrow>
   make_record hs cells (hs ! i) = Some (cell_value (cells ! i))"
  by (simp add: make_record_def fold_record_at)

lemma process_rows_mem:
  "r \<in> set (process_rows hs rws) \<Longrightarrow>
   \<exists>row \<in> set rws. row \<noteq> [] \<and> r = make_record hs (fit_cells (length hs) row)"
  by (induction rws) (auto split: if_splits)

lemma process_table_data_Some:
  "process_table_data (Some d) =
     (if header d = [] then [] else process_rows (clean_headers (header d)) (rows d))"
  by (simp add: process_table_data_def clean_headers_def Let_def)

text \<open>
  C4. For a table whose cleaned header is not empty, every record that
  \<open>process_table_data\<close> produces has exactly the cleaned headers as its keys, so
  all records of the table share one key set. The record is built from a row of
  the table fitted to the header length: a row at least as long as the header is
  cut to the header length, a shorter one is padded on the right with empty
  cells.
\<close>

theorem process_table_data_key_set:
  assumes "clean_headers (header d) \<noteq> []"
    and "r \<in> set (process_table_data (Some d))"
  shows "dom r = set (clean_headers (header d)) \<and>
    (\<exists>row \<in> set (rows d).
       r = make_record (clean_headers (header d))
             (fit_cells (length (clean_headers (header d))) row) \<and>
       length (fit_cells (length (clean_headers (header d))) row)
         = length (clean_headers (header d)) \<and>
       (length (clean_headers (header d)) \<le> length row \<longrightarrow>
          fit_cells (length (clean_headers (header d))) row
            = take (length (clean_headers (header d))) row) \<and>
       (length row < length (clean_headers (header d)) \<longrightarrow>
          fit_cells (length (clean_headers (header d))) row
            = row @ replicate (length (clean_headers (header d)) - length row) []))"
proof -
  let ?hs = "clean_headers (header d)"
  from assms(1) have "header d \<noteq> []" by (auto simp: clean_headers_def)
  with assms(2) have "r \<in> set (process_rows ?hs (rows d))"
    by (simp add: process_table_data_Some)
  then obtain row where row: "row \<in> set (rows d)"
    and r: "r = make_record ?hs (fit_cells (length ?hs) row)"
    using process_rows_mem by blast
  have "dom r = set ?hs"
    unfolding r by (rule dom_make_record) (rule length_fit_cells)
  moreover have "\<exists>row \<in> set (rows d).
       r = make_record ?hs (fit_cells (length ?hs) row) \<and>
       length (fit_cells (length ?hs) row) = length ?hs \<and>
       (length ?hs \<le> length row \<longrightarrow> fit_cells (length ?hs) row = take (length ?hs) row) \<and>
       (length row < length ?hs \<longrightarrow>
          fit_cells (length ?hs) row = row @ replicate (length ?hs - length row) [])"
    using row r length_fit_cells fit_cells_long fit_cells_short by blast
  ultimately show ?thesis by blast
qed

lemma clean_header_A: "clean_header ''A'' = ''a''" by code_simp
lemma clean_header_B: "clean_header ''B'' = ''b''" by code_simp

theorem process_table_data_key_set_witness:
  "dom (hd (process_table_data
       (Some \<lparr>header = [''A'', ''B''], rows = [[''1''], [''2'', ''x'', ''y'']]\<rparr>)))
     = {''a'', ''b''}"
proof -
  let ?d = "\<lparr>header = [''A'', ''B''], rows = [[''1''], [''2'', ''x'', ''y'']]\<rparr>"
  have h: "clean_headers [''A'', ''B''] = [''a'', ''b'']"
    by (simp add: clean_headers_def clean_header_A clean_header_B)
  have ne: "clean_headers (header ?d) \<noteq> []" by (simp add: h)
  have "process_table_data (Some ?d) \<noteq> []"
    by (simp add: process_table_data_Some)
  then have mem: "hd (process_table_data (Some ?d)) \<in> set (process_table_data (Some ?d))"
    by simp
  from process_table_data_key_set [OF ne mem] show ?thesis
    by (simp add: h insert_commute)
qed

lemma strip_two_spaces: "strip ''  '' = []"
  by code_simp

lemma strip_empty_iff: "strip s = [] \<longleftrightarrow> (\<forall>c \<in> set s. is_space c)"
proof
  assume "strip s = []"
  then have all: "\<forall>x \<in> set (dropWhile is_space s). is_space x"
    by (simp add: strip_def rstrip_def lstrip_def)
  have "dropWhile is_space s = []"
  proof (rule ccontr)
    assume ne: "dropWhile is_space s \<noteq> []"
    then have "hd (dropWhile is_space s) \<in> set (dropWhile is_space s)"
      by (rule hd_in_set)
    with all hd_dropWhile [OF ne] show False by blast
  qed
  then show "\<forall>c \<in> set s. is_space c" by simp
next
  assume "\<forall>c \<in> set s. is_space c"
  then have "dropWhile is_space s = []" by simp
  then show "strip s = []"
    by (simp only: strip_def rstrip_def lstrip_def rev.simps dropWhile.simps)
qed

lemma get_text_strip_blank: "blank_cell nodes \<Longrightarrow> get_text_strip nodes = []"
  by (induction nodes) (auto simp: blank_cell_def get_text_strip_def strip_empty_iff list_all_iff)

lemma nonempty_texts_blank: "list_all blank_cell row \<Longrightarrow> nonempty_texts row = []"
  by (induction row) (auto simp: nonempty_texts_def get_text_strip_blank)

lemma collect_rows_append: "collect_rows (xs @ ys) = collect_rows xs @ collect_rows ys"
  by (induction xs) (auto simp: Let_def)

lemma collect_rows_blank:
  "list_all blank_cell row \<Longrightarrow>
   collect_rows (before @ row # after) = collect_rows (before @ after)"
  by (simp add: collect_rows_append nonempty_texts_blank)

lemma process_table_data_no_rows: "rows d = [] \<Longrightarrow> process_table_data (Some d) = []"
  by (simp add: process_table_data_Some)

lemma notices_no_rows:
  "collect_rows trs = [] \<Longrightarrow> notices (Table_found (Some (t\<lparr>tbody := Some trs\<rparr>))) = []"
  by (cases "thead_th t")
     (simp_all add: notices_def extract_table_details_def extract_table_data_def
        process_table_data_no_rows process_table_data_def Let_def)

lemma process_rows_eq:
  "process_rows hs rws =
     map (\<lambda>row. make_record hs (fit_cells (length hs) row)) (filter (\<lambda>row. row \<noteq> []) rws)"
  by (induction rws) simp_all

lemma rightmost_column:
  assumes "i < length hs"
  shows "\<exists>j. i \<le> j \<and> j < length hs \<and> hs ! j = hs ! i \<and>
           (\<forall>k. j < k \<and> k < length hs \<longrightarrow> hs ! k \<noteq> hs ! i)"
proof -
  define P where "P j \<longleftrightarrow> j < length hs \<and> hs ! j = hs ! i" for j
  have Pi: "P i" using assms by (simp add: P_def)
  have bound: "P y \<Longrightarrow> y \<le> length hs" for y by (simp add: P_def)
  have g: "P (Greatest P)" using Pi bound by (rule GreatestI_nat)
  have le: "i \<le> Greatest P" using Pi bound by (rule Greatest_le_nat)
  have "hs ! k \<noteq> hs ! i" if "Greatest P < k" "k < length hs" for k
  proof
    assume "hs ! k = hs ! i"
    with that have "P k" by (simp add: P_def)
    then have "k \<le> Greatest P" using bound by (rule Greatest_le_nat)
    with that show False by simp
  qed
  with g le show ?thesis unfolding P_def by blast
qed

lemma not_in_drop:
  assumes "\<forall>k. j < k \<and> k < length hs \<longrightarrow> hs ! k \<noteq> x"
  shows "x \<notin> set (drop (Suc j) hs)"
proof
  assume "x \<in> set (drop (Suc j) hs)"
  then obtain m where "m < length (drop (Suc j) hs)" "drop (Suc j) hs ! m = x"
    by (auto simp: in_set_conv_nth)
  then have "Suc j + m < length hs" "hs ! (Suc j + m) = x" by simp_all
  with assms show False by auto
qed

lemma clean_header_No: "clean_header ''No'' = ''number''" by code_simp
lemma clean_header_Number: "clean_header ''Number'' = ''number''" by code_simp

text \<open>
  C9, as the code has it. For every record of \<open>process_table_data\<close> there is a
  row of the table with at least one cell such that, for every column, the value
  the record stores under the cleaned header of that column is the value of the
  rightmost cell (of the row after truncation and padding) whose column has that
  same cleaned header: \<open>None\<close> when that cell is the empty string, and the trimmed
  text of that cell otherwise. Where no column further right repeats the header,
  the rightmost such cell is the cell of the column itself; where one does, the
  record keeps the later cell only. The test for emptiness is made before
  trimming, so a cell that is not empty but holds only whitespace is stored as
  the empty string.
\<close>

theorem process_table_data_cell_values:
  assumes "r \<in> set (process_table_data (Some d))"
  shows "\<exists>row \<in> set (rows d). row \<noteq> [] \<and>
    (\<forall>i < length (clean_headers (header d)).
       \<exists>j. i \<le> j \<and> j < length (clean_headers (header d)) \<and>
         clean_headers (header d) ! j = clean_headers (header d) ! i \<and>
         (\<forall>k. j < k \<and> k < length (clean_headers (header d))
              \<longrightarrow> clean_headers (header d) ! k \<noteq> clean_headers (header d) ! i) \<and>
         r (clean_headers (header d) ! i) =
           Some (if fit_cells (length (clean_headers (header d))) row ! j = [] then None
                 else Some (strip (fit_cells (length (clean_headers (header d))) row ! j))))"
proof -
  let ?hs = "clean_headers (header d)"
  from assms have "r \<in> set (process_rows ?hs (rows d))"
    by (simp add: process_table_data_Some split: if_splits)
  then obtain row where row: "row \<in> set (rows d)" "row \<noteq> []"
    and r: "r = make_record ?hs (fit_cells (length ?hs) row)"
    using process_rows_mem by blast
  let ?cells = "fit_cells (length ?hs) row"
  have "\<exists>j. i \<le> j \<and> j < length ?hs \<and> ?hs ! j = ?hs ! i \<and>
         (\<forall>k. j < k \<and> k < length ?hs \<longrightarrow> ?hs ! k \<noteq> ?hs ! i) \<and>
         r (?hs ! i) = Some (if ?cells ! j = [] then None else Some (strip (?cells ! j)))"
    if i: "i < length ?hs" for i
  proof -
    from rightmost_column [OF i] obtain j where j: "i \<le> j" "j < length ?hs" "?hs ! j = ?hs ! i"
      and last: "\<forall>k. j < k \<and> k < length ?hs \<longrightarrow> ?hs ! k \<noteq> ?hs ! i"
      by blast
    have "?hs ! i \<notin> set (drop (Suc j) ?hs)"
      by (rule not_in_drop [OF last])
    then have "?hs ! j \<notin> set (drop (Suc j) ?hs)"
      by (simp add: j(3))
    with j(2) have "make_record ?hs ?cells (?hs ! j) = Some (cell_value (?cells ! j))"
      by (intro make_record_at length_fit_cells)
    then have "r (?hs ! i) = Some (if ?cells ! j = [] then None else Some (strip (?cells ! j)))"
      unfolding r j(3) by (simp add: cell_value_def)
    with j last show ?thesis by blast
  qed
  with row show ?thesis by blast
qed

theorem process_table_data_cell_values_witness:
  "hd (process_table_data (Some \<lparr>header = [''A'', ''B''], rows = [[''  x '']]\<rparr>)) ''a''
     = Some (Some ''x'') \<and>
   hd (process_table_data (Some \<lparr>header = [''A'', ''B''], rows = [[''  x '']]\<rparr>)) ''b''
     = Some None"
proof -
  let ?d = "\<lparr>header = [''A'', ''B''], rows = [[''  x '']]\<rparr>"
  let ?r = "hd (process_table_data (Some ?d))"
  have h: "clean_headers (header ?d) = [''a'', ''b'']"
    by (simp add: clean_headers_def clean_header_A clean_header_B)
  have s: "strip ''  x '' = ''x''"
    by code_simp
  have "process_table_data (Some ?d) \<noteq> []"
    by (simp add: process_table_data_Some)
  then have mem: "?r \<in> set (process_table_data (Some ?d))"
    by simp
  from process_table_data_cell_values [OF mem]
  obtain row where row: "row \<in> set (rows ?d)"
    and v: "\<forall>i < length (clean_headers (header ?d)).
       \<exists>j. i \<le> j \<and> j < length (clean_headers (header ?d)) \<and>
         clean_headers (header ?d) ! j = clean_headers (header ?d) ! i \<and>
         (\<forall>k. j < k \<and> k < length (clean_headers (header ?d))
              \<longrightarrow> clean_headers (header ?d) ! k \<noteq> clean_headers (header ?d) ! i) \<and>
         ?r (clean_headers (header ?d) ! i) =
           Some (if fit_cells (length (clean_headers (header ?d))) row ! j = [] then None
                 else Some (strip (fit_cells (length (clean_headers (header ?d))) row ! j)))"
    by blast
  from row have row_eq: "row = [''  x '']" by simp
  from v [unfolded h row_eq, rule_format, of 0]
  have a: "?r ''a'' = Some (Some ''x'')"
    by (auto simp: fit_cells_def s numeral_2_eq_2 less_Suc_eq)
  from v [unfolded h row_eq, rule_format, of 1]
  have b: "?r ''b'' = Some None"
    by (auto simp: fit_cells_def s numeral_2_eq_2 less_Suc_eq)
  from a b show ?thesis by simp
qed

text \<open>
  C9, as it is stated, fails on a cell of two spaces: it is empty after trimming,
  and the record stores the empty string for it, not \<open>None\<close>. It also fails where
  two headers clean to the same identifier: under the headers \<open>No\<close> and \<open>Number\<close>
  the record has the one key \<open>number\<close>, which holds the second cell, and the first
  cell is not stored.
\<close>

theorem whitespace_cell_stored_as_empty_string:
  "strip ''  '' = [] \<and>
   length (process_table_data (Some \<lparr>header = [''A''], rows = [[''  '']]\<rparr>)) = 1 \<and>
   hd (process_table_data (Some \<lparr>header = [''A''], rows = [[''  '']]\<rparr>)) ''a''
     = Some (Some []) \<and>
   hd (process_table_data (Some \<lparr>header = [''A''], rows = [[''  '']]\<rparr>)) ''a''
     \<noteq> Some None \<and>
   length (process_table_data (Some \<lparr>header = [''No'', ''Number''], rows = [[''1'', ''2'']]\<rparr>)) = 1 \<and>
   dom (hd (process_table_data (Some \<lparr>header = [''No'', ''Number''], rows = [[''1'', ''2'']]\<rparr>)))
     = {''number''} \<and>
   hd (process_table_data (Some \<lparr>header = [''No'', ''Number''], rows = [[''1'', ''2'']]\<rparr>))
       ''number'' = Some (Some ''2'')"
proof -
  have one: "strip ''1'' = ''1''" and two: "strip ''2'' = ''2''"
    by code_simp+
  show ?thesis
    by (simp add: process_table_data_Some clean_headers_def clean_header_A clean_header_No
        clean_header_Number fit_cells_def make_record_def put_cell_def cell_value_def
        strip_two_spaces one two)
qed

lemma blank_page_row_dropped:
  assumes "list_all blank_cell row"
  shows "notices (Table_found (Some (t\<lparr>tbody := Some (before @ row # after)\<rparr>)))
           = notices (Table_found (Some (t\<lparr>tbody := Some (before @ after)\<rparr>)))
       \<and> notices (Table_found (Some (t\<lparr>tbody := Some [row]\<rparr>))) = []"
proof -
  have "extract_table_data (Some (t\<lparr>tbody := Some (before @ row # after)\<rparr>))
          = extract_table_data (Some (t\<lparr>tbody := Some (before @ after)\<rparr>))"
    by (cases "thead_th t")
       (simp_all add: extract_table_data_def Let_def collect_rows_blank [OF assms])
  then have "notices (Table_found (Some (t\<lparr>tbody := Some (before @ row # after)\<rparr>)))
           = notices (Table_found (Some (t\<lparr>tbody := Some (before @ after)\<rparr>)))"
    by (simp add: notices_def extract_table_details_def)
  moreover have "collect_rows [row] = []"
    using assms by (simp add: nonempty_texts_blank)
  then have "notices (Table_found (Some (t\<lparr>tbody := Some [row]\<rparr>))) = []"
    by (rule notices_no_rows)
  ultimately show ?thesis by simp
qed

text \<open>
  C6, as the code has it. \<open>process_table_data\<close> gives, for a table with a header,
  one record for each row that has at least one cell, in the order of the rows,
  and no record for a row without cells: it tests the row, not its cells, so a
  row whose cells are all empty or hold only whitespace does give a record. On
  the page, a row all of whose cells are empty or hold only whitespace produces
  no record because \<open>extract_table_data\<close> drops it before the records are made:
  the records of the page are those of the page without that row, and a page
  with that row alone gives no record.
\<close>

theorem process_table_data_skips_rows_without_cells:
  "process_table_data (Some d) =
     (if header d = [] then []
      else map (\<lambda>row. make_record (clean_headers (header d))
                        (fit_cells (length (clean_headers (header d))) row))
               (filter (\<lambda>row. row \<noteq> []) (rows d))) \<and>
   (list_all blank_cell row \<longrightarrow>
      notices (Table_found (Some (t\<lparr>tbody := Some (before @ row # after)\<rparr>)))
        = notices (Table_found (Some (t\<lparr>tbody := Some (before @ after)\<rparr>))) \<and>
      notices (Table_found (Some (t\<lparr>tbody := Some [row]\<rparr>))) = [])"
  using blank_page_row_dropped [where row = row and t = t and before = before and after = after]
  by (simp add: process_table_data_Some process_rows_eq)

theorem process_table_data_skips_rows_without_cells_witness:
  "length (process_table_data
      (Some \<lparr>header = [''A'', ''B''], rows = [[], [''1''], [], [''2'', ''x'', ''y'']]\<rparr>)) = 2 \<and>
   list_all blank_cell [[''''], [''  '']] \<and>
   notices (Table_found (Some \<lparr>thead_th = Some [[''A''], [''B'']], thead_td = [],
       tbody = Some [[[''''], [''  '']]]\<rparr>)) = []"
proof -
  note t = process_table_data_skips_rows_without_cells
    [where d = "\<lparr>header = [''A'', ''B''], rows = [[], [''1''], [], [''2'', ''x'', ''y'']]\<rparr>"
       and row = "[[''''], [''  '']]"
       and t = "\<lparr>thead_th = Some [[''A''], [''B'']], thead_td = [], tbody = None\<rparr>"
       and before = "[]" and after = "[]"]
  have b: "list_all blank_cell [[''''], [''  '']]"
    by code_simp
  from t [THEN conjunct1]
  have n: "length (process_table_data
      (Some \<lparr>header = [''A'', ''B''], rows = [[], [''1''], [], [''2'', ''x'', ''y'']]\<rparr>)) = 2"
    by simp
  from t [THEN conjunct2, rule_format, OF b, THEN conjunct2]
  have "notices (Table_found (Some \<lparr>thead_th = Some [[''A''], [''B'']], thead_td = [],
       tbody = Some [[[''''], [''  '']]]\<rparr>)) = []"
    by simp
  with b n show ?thesis by (simp only: simp_thms)
qed

text \<open>
  C6, as it is stated, fails on its own example: the row of an empty cell and a
  cell of two spaces, under two headers, has cells, so \<open>process_table_data\<close> makes
  a record of it, with \<open>None\<close> for the empty cell and the empty string for the
  cell of spaces.
\<close>

theorem blank_cells_row_yields_record:
  "length (process_table_data (Some \<lparr>header = [''A'', ''B''], rows = [['''', ''  '']]\<rparr>)) = 1 \<and>
   hd (process_table_data (Some \<lparr>header = [''A'', ''B''], rows = [['''', ''  '']]\<rparr>)) ''a''
     = Some None \<and>
   hd (process_table_data (Some \<lparr>header = [''A'', ''B''], rows = [['''', ''  '']]\<rparr>)) ''b''
     = Some (Some [])"
  by (simp add: process_table_data_Some clean_headers_def clean_header_A clean_header_B
      fit_cells_def make_record_def put_cell_def cell_value_def strip_two_spaces)

section \<open>Properties of \<open>solve_expression\<close>\<close>

lemma py_split_not_Nil: "py_split sep s \<noteq> []"
  by (induction sep s rule: py_split.induct) (auto simp: Let_def)

lemma py_split_char_absent: "c \<notin> set s \<Longrightarrow> py_split [c] s = [s]"
  by (induction s) (auto simp: Let_def)

lemma py_split_char_first:
  "c \<notin> set l \<Longrightarrow> py_split [c] (l @ c # r) = l # py_split [c] r"
  by (induction l) (auto simp: Let_def)

lemma py_split_char_single: "py_split [c] s = [a] \<Longrightarrow> c \<notin> set s"
proof (rule ccontr)
  assume one: "py_split [c] s = [a]" and "\<not> c \<notin> set s"
  then have "c \<in> set s" by simp
  then obtain l r where "s = l @ c # r" "c \<notin> set l"
    by (auto dest: split_list_first)
  then have "py_split [c] s = l # py_split [c] r"
    by (simp add: py_split_char_first)
  with one have "py_split [c] r = []" by simp
  then show False by (simp add: py_split_not_Nil)
qed

lemma py_split_char_two_iff:
  "py_split [c] s = [a, b] \<longleftrightarrow> s = a @ c # b \<and> c \<notin> set a \<and> c \<notin> set b"
proof
  assume two: "py_split [c] s = [a, b]"
  have "c \<in> set s"
  proof (rule ccontr)
    assume "c \<notin> set s"
    then have "py_split [c] s = [s]" by (rule py_split_char_absent)
    with two show False by simp
  qed
  then obtain l r where s: "s = l @ c # r" and l: "c \<notin> set l"
    by (auto dest: split_list_first)
  then have "py_split [c] s = l # py_split [c] r"
    by (simp add: py_split_char_first)
  with two have la: "l = a" and rb: "py_split [c] r = [b]" by simp_all
  from rb have "c \<notin> set r" by (rule py_split_char_single)
  with rb have "r = b" by (simp add: py_split_char_absent)
  with s l la \<open>c \<notin> set r\<close> show "s = a @ c # b \<and> c \<notin> set a \<and> c \<notin> set b" by simp
next
  assume "s = a @ c # b \<and> c \<notin> set a \<and> c \<notin> set b"
  then show "py_split [c] s = [a, b]"
    by (simp add: py_split_char_first py_split_char_absent)
qed

lemma two_strings: "length xs = 2 \<Longrightarrow> \<exists>a b. xs = [a, b]"
  by (cases xs; cases "tl xs") auto

lemma solve_expression_body_plus:
  assumes "CHR ''+'' \<in> set text"
  shows "solve_expression_body py text = Inr v \<longleftrightarrow>
    (\<exists>l r x y. text = l @ ''+'' @ r \<and> CHR ''+'' \<notin> set l \<and> CHR ''+'' \<notin> set r \<and>
       py_int py (strip l) = Inr x \<and> py_int py (strip r) = Inr y \<and> v = x + y)"
proof
  assume ok: "solve_expression_body py text = Inr v"
  then have "length (py_split ''+'' text) = 2"
    using assms by (auto simp: solve_expression_body_def Let_def split: if_splits)
  then obtain l r where parts: "py_split ''+'' text = [l, r]"
    using two_strings by blast
  from ok obtain x y where "py_int py (strip l) = Inr x" "py_int py (strip r) = Inr y" "v = x + y"
    using assms parts by (auto simp: solve_expression_body_def Let_def split: sum.splits)
  moreover from parts have "text = l @ ''+'' @ r \<and> CHR ''+'' \<notin> set l \<and> CHR ''+'' \<notin> set r"
    by (simp add: py_split_char_two_iff)
  ultimately show "\<exists>l r x y. text = l @ ''+'' @ r \<and> CHR ''+'' \<notin> set l \<and> CHR ''+'' \<notin> set r \<and>
       py_int py (strip l) = Inr x \<and> py_int py (strip r) = Inr y \<and> v = x + y"
    by blast
next
  assume "\<exists>l r x y. text = l @ ''+'' @ r \<and> CHR ''+'' \<notin> set l \<and> CHR ''+'' \<notin> set r \<and>
       py_int py (strip l) = Inr x \<and> py_int py (strip r) = Inr y \<and> v = x + y"
  then obtain l r x y where dec: "text = l @ ''+'' @ r" "CHR ''+'' \<notin> set l" "CHR ''+'' \<notin> set r"
    and ints: "py_int py (strip l) = Inr x" "py_int py (strip r) = Inr y" "v = x + y"
    by blast
  from dec have "py_split ''+'' text = [l, r]"
    by (simp add: py_split_char_two_iff)
  with ints assms show "solve_expression_body py text = Inr v"
    by (simp add: solve_expression_body_def Let_def)
qed

lemma solve_expression_body_minus:
  assumes "CHR ''+'' \<notin> set text"
  shows "solve_expression_body py text = Inr v \<longleftrightarrow>
    (\<exists>l r x y. text = l @ ''-'' @ r \<and> CHR ''-'' \<notin> set l \<and> CHR ''-'' \<notin> set r \<and>
       py_int py (strip l) = Inr x \<and> py_int py (strip r) = Inr y \<and> v = x - y)"
proof
  assume ok: "solve_expression_body py text = Inr v"
  then have "length (py_split ''-'' text) = 2"
    using assms by (auto simp: solve_expression_body_def Let_def split: if_splits)
  then obtain l r where parts: "py_split ''-'' text = [l, r]"
    using two_strings by blast
  from ok obtain x y where "py_int py (strip l) = Inr x" "py_int py (strip r) = Inr y" "v = x - y"
    using assms parts by (auto simp: solve_expression_body_def Let_def split: sum.splits)
  moreover from parts have "text = l @ ''-'' @ r \<and> CHR ''-'' \<notin> set l \<and> CHR ''-'' \<notin> set r"
    by (simp add: py_split_char_two_iff)
  ultimately show "\<exists>l r x y. text = l @ ''-'' @ r \<and> CHR ''-'' \<notin> set l \<and> CHR ''-'' \<notin> set r \<and>
       py_int py (strip l) = Inr x \<and> py_int py (strip r) = Inr y \<and> v = x - y"
    by blast
next
  assume "\<exists>l r x y. text = l @ ''-'' @ r \<and> CHR ''-'' \<notin> set l \<and> CHR ''-'' \<notin> set r \<and>
       py_int py (strip l) = Inr x \<and> py_int py (strip r) = Inr y \<and> v = x - y"
  then obtain l r x y where dec: "text = l @ ''-'' @ r" "CHR ''-'' \<notin> set l" "CHR ''-'' \<notin> set r"
    and ints: "py_int py (strip l) = Inr x" "py_int py (strip r) = Inr y" "v = x - y"
    by blast
  from dec have "py_split ''-'' text = [l, r]"
    by (simp add: py_split_char_two_iff)
  with ints assms show "solve_expression_body py text = Inr v"
    by (simp add: solve_expression_body_def Let_def)
qed

lemma solve_expression_error_iff:
  "is_error_result (solve_expression py text) \<longleftrightarrow> (\<forall>v. solve_expression_body py text \<noteq> Inr v)"
  by (cases "solve_expression_body py text")
     (simp_all add: solve_expression_def is_error_result_def startswith_def)

lemma solve_expression_value_iff:
  "solve_expression py text = PyInt v \<longleftrightarrow> solve_expression_body py text = Inr v"
  by (cases "solve_expression_body py text") (simp_all add: solve_expression_def)

text \<open>
  C5, as the code has it. For every text: when the text is two integer operands
  around a single \<open>+\<close>, \<open>solve_expression\<close> returns their sum; when the text holds
  no \<open>+\<close> and is two integer operands around a single \<open>-\<close>, it returns their
  difference; for every other text it returns the string that starts with
  \<open>Error evaluating expression\<close>. The result is always a value: the handler
  catches every exception of the body. An operand is an integer when \<open>int\<close>
  accepts it, so it may carry a sign.
\<close>

theorem solve_expression_cases:
  "(text = l @ ''+'' @ r \<and> CHR ''+'' \<notin> set l \<and> CHR ''+'' \<notin> set r \<and>
      py_int py (strip l) = Inr x \<and> py_int py (strip r) = Inr y
      \<longrightarrow> solve_expression py text = PyInt (x + y)) \<and>
   (CHR ''+'' \<notin> set text \<and> text = l @ ''-'' @ r \<and> CHR ''-'' \<notin> set l \<and> CHR ''-'' \<notin> set r \<and>
      py_int py (strip l) = Inr x \<and> py_int py (strip r) = Inr y
      \<longrightarrow> solve_expression py text = PyInt (x - y)) \<and>
   ((\<nexists>l r x y. text = l @ ''+'' @ r \<and> CHR ''+'' \<notin> set l \<and> CHR ''+'' \<notin> set r \<and>
        py_int py (strip l) = Inr x \<and> py_int py (strip r) = Inr y) \<and>
    (\<nexists>l r x y. CHR ''+'' \<notin> set text \<and> text = l @ ''-'' @ r \<and>
        CHR ''-'' \<notin> set l \<and> CHR ''-'' \<notin> set r \<and>
        py_int py (strip l) = Inr x \<and> py_int py (strip r) = Inr y)
      \<longrightarrow> is_error_result (solve_expression py text))"
proof (intro conjI impI)
  assume "text = l @ ''+'' @ r \<and> CHR ''+'' \<notin> set l \<and> CHR ''+'' \<notin> set r \<and>
      py_int py (strip l) = Inr x \<and> py_int py (strip r) = Inr y"
  moreover from this have "CHR ''+'' \<in> set text" by simp
  ultimately show "solve_expression py text = PyInt (x + y)"
    unfolding solve_expression_value_iff by (subst solve_expression_body_plus) blast+
next
  assume "CHR ''+'' \<notin> set text \<and> text = l @ ''-'' @ r \<and> CHR ''-'' \<notin> set l \<and>
      CHR ''-'' \<notin> set r \<and> py_int py (strip l) = Inr x \<and> py_int py (strip r) = Inr y"
  then show "solve_expression py text = PyInt (x - y)"
    unfolding solve_expression_value_iff by (subst solve_expression_body_minus) blast+
next
  assume none: "(\<nexists>l r x y. text = l @ ''+'' @ r \<and> CHR ''+'' \<notin> set l \<and> CHR ''+'' \<notin> set r \<and>
        py_int py (strip l) = Inr x \<and> py_int py (strip r) = Inr y) \<and>
    (\<nexists>l r x y. CHR ''+'' \<notin> set text \<and> text = l @ ''-'' @ r \<and>
        CHR ''-'' \<notin> set l \<and> CHR ''-'' \<notin> set r \<and>
        py_int py (strip l) = Inr x \<and> py_int py (strip r) = Inr y)"
  show "is_error_result (solve_expression py text)"
    unfolding solve_expression_error_iff
  proof (intro allI notI)
    fix v
    assume ok: "solve_expression_body py text = Inr v"
    show False
    proof (cases "CHR ''+'' \<in> set text")
      case True
      from ok none show False
        unfolding solve_expression_body_plus [OF True] by blast
    next
      case False
      from ok none False show False
        unfolding solve_expression_body_minus [OF False] by blast
    qed
  qed
qed

lemma py_int_examples:
  "py_int cpython (strip ''12 '') = Inr 12"
  "py_int cpython (strip '' 7'') = Inr 7"
  "py_int cpython (strip ''20 '') = Inr 20"
  "py_int cpython (strip '' 35'') = Inr 35"
  "py_int cpython (strip ''3'') = Inr 3"
  "py_int cpython (strip ''+5'') = Inr 5"
  by code_simp+

theorem solve_expression_cases_witness:
  "solve_expression cpython ''12 + 7'' = PyInt 19 \<and>
   solve_expression cpython ''20 - 35'' = PyInt (- 15) \<and>
   is_error_result (solve_expression cpython ''12 * 7'')"
proof -
  have "solve_expression cpython ''12 + 7'' = PyInt (12 + 7)"
    using solve_expression_cases [of "''12 + 7''" "''12 ''" "'' 7''" cpython 12 7]
    by (simp add: py_int_examples)
  moreover have "solve_expression cpython ''20 - 35'' = PyInt (20 - 35)"
    using solve_expression_cases [of "''20 - 35''" "''20 ''" "'' 35''" cpython 20 35]
    by (simp add: py_int_examples)
  moreover have "is_error_result (solve_expression cpython ''12 * 7'')"
  proof -
    have p: "\<nexists>l r x y. ''12 * 7'' = l @ ''+'' @ r \<and> CHR ''+'' \<notin> set l \<and> CHR ''+'' \<notin> set r \<and>
        py_int cpython (strip l) = Inr x \<and> py_int cpython (strip r) = Inr y"
    proof
      assume "\<exists>l r x y. ''12 * 7'' = l @ ''+'' @ r \<and> CHR ''+'' \<notin> set l \<and> CHR ''+'' \<notin> set r \<and>
        py_int cpython (strip l) = Inr x \<and> py_int cpython (strip r) = Inr y"
      then obtain l r where "''12 * 7'' = l @ ''+'' @ r" by blast
      then have "CHR ''+'' \<in> set ''12 * 7''" by (simp only: set_append set_simps) blast
      then show False by simp
    qed
    have m: "\<nexists>l r x y. CHR ''+'' \<notin> set ''12 * 7'' \<and> ''12 * 7'' = l @ ''-'' @ r \<and>
        CHR ''-'' \<notin> set l \<and> CHR ''-'' \<notin> set r \<and>
        py_int cpython (strip l) = Inr x \<and> py_int cpython (strip r) = Inr y"
    proof
      assume "\<exists>l r x y. CHR ''+'' \<notin> set ''12 * 7'' \<and> ''12 * 7'' = l @ ''-'' @ r \<and>
        CHR ''-'' \<notin> set l \<and> CHR ''-'' \<notin> set r \<and>
        py_int cpython (strip l) = Inr x \<and> py_int cpython (strip r) = Inr y"
      then obtain l r where "''12 * 7'' = l @ ''-'' @ r" by blast
      then have "CHR ''-'' \<in> set ''12 * 7''" by (simp only: set_append set_simps) blast
      then show False by simp
    qed
    from solve_expression_cases [of "''12 * 7''" "[]" "[]" cpython 0 0, THEN conjunct2,
        THEN conjunct2, rule_format, OF conjI [OF p m]]
    show ?thesis .
  qed
  ultimately show ?thesis by simp
qed

text \<open>
  C5, as it is stated, fails on \<open>3-+5\<close>: the text is the two integer operands
  \<open>3\<close> and \<open>+5\<close> around its single \<open>-\<close>, and yet the result is the error string,
  because the text holds a \<open>+\<close> and is split there.
\<close>

theorem solve_expression_minus_with_plus:
  "''3-+5'' = ''3'' @ ''-'' @ ''+5'' \<and> CHR ''-'' \<notin> set ''3'' \<and> CHR ''-'' \<notin> set ''+5'' \<and>
   py_int cpython (strip ''3'') = Inr 3 \<and> py_int cpython (strip ''+5'') = Inr 5 \<and>
   solve_expression cpython ''3-+5'' \<noteq> PyInt (3 - 5) \<and>
   is_error_result (solve_expression cpython ''3-+5'')"
proof -
  have "is_error_result (solve_expression cpython ''3-+5'')"
    by code_simp
  moreover from this have "solve_expression cpython ''3-+5'' \<noteq> PyInt (3 - 5)"
    by (auto simp: is_error_result_def)
  ultimately show ?thesis
    by (simp add: py_int_examples)
qed

section \<open>Properties of the retry process\<close>

declare retry_captcha_process.simps [simp del]

lemma after_submit_events:
  "Image_read \<notin> set (snd (after_submit a))" "Refresh_clicked \<notin> set (snd (after_submit a))"
  by (auto simp: after_submit_def split: sum.splits table_outcome.splits option.splits)


lemma wait_notfound_raises: "wait_notfound a = Inl TypeError"
  by (simp add: wait_notfound_def visibility_of_element_located_def)

lemma after_submit_not_False: "fst (after_submit a) \<noteq> RFalse"
  by (simp add: after_submit_def wait_notfound_raises
      split: table_outcome.splits option.splits)






text \<open>
  C10. Whenever a run of \<open>retry_captcha_process\<close> clicks the refresh link, that
  is, whenever an attempt is classified as a parse failure and retried, the call
  returns \<open>None\<close>: the result of the recursive call is dropped. In the example the
  second attempt solves the CAPTCHA and extracts the data 42, which the call from
  attempt 1 returns, and the call from attempt 0 returns \<open>None\<close>.
\<close>

theorem retry_discards_result:
  "Refresh_clicked \<in> set (snd (retry_captcha_process py driver attempt max_attempts))
   \<longrightarrow> fst (retry_captcha_process py driver attempt max_attempts) = RNone"
  by (subst (1 2) retry_captcha_process.simps)
     (auto simp: Let_def after_submit_events)

theorem retry_discards_result_witness:
  "Refresh_clicked \<in> set (snd (retry_captcha_process cpython solved_at_second 0 20)) \<and>
   fst (retry_captcha_process cpython solved_at_second 0 20) = RNone \<and>
   fst (retry_captcha_process cpython solved_at_second 1 20) = RData 42"
proof -
  have r: "Refresh_clicked \<in> set (snd (retry_captcha_process cpython solved_at_second 0 20))"
    by code_simp
  have d: "fst (retry_captcha_process cpython solved_at_second 1 20) = RData 42"
    by code_simp
  from r retry_discards_result [of cpython solved_at_second 0 20] d show ?thesis
    by blast
qed

text \<open>
  C8, on the code. The condition of line 182 is built from two arguments where
  Selenium takes one locator, so building it raises \<open>TypeError\<close>, the handler of
  line 185 passes, and \<open>return False\<close> is never reached. On a page that shows the
  \<open>notfound\<close> block the lookup then waits for a result table, fails, and returns
  \<open>None\<close>, which is also what it returns when reading a found case raises.
\<close>

theorem notfound_page_returns_None:
  "notfound_visible notfound_page \<and>
   retry_captcha_process cpython (\<lambda>k. notfound_page) 0 20 =
     (RNone, [Image_read, Answer_typed (PyInt 19), Search_clicked, Logged TimeoutException]) \<and>
   fst (retry_captcha_process cpython (\<lambda>k. broken_page) 0 20) = RNone"
  by code_simp

lemma retry_captcha_process_never_False:
  "fst (retry_captcha_process py driver attempt max_attempts) \<noteq> RFalse"
  by (subst retry_captcha_process.simps) (simp add: Let_def after_submit_not_False)

section \<open>The driver loop on a concrete site\<close>

lemma solve_sum: "solve_expression cpython ''12 + 7'' = PyInt 19"
  by code_simp

lemma lookup_found:
  "fst (retry_captcha_process py (\<lambda>k. found_case d) 0 20) =
     (if is_error_result (solve_expression py ''12 + 7'') then RNone else RData d)"
  by (subst retry_captcha_process.simps)
     (simp add: found_case_def after_submit_def wait_notfound_raises Let_def)

lemma lookup_notfound:
  "fst (retry_captcha_process py (\<lambda>k. notfound_page) 0 20) = RNone"
  by (subst retry_captcha_process.simps)
     (simp add: notfound_page_def after_submit_def wait_notfound_raises Let_def)

lemma lookup_alternating_site:
  "process_case_details_by_diary_number cpython (alternating_site n year) =
     Inr (if even n then RData n else RNone)"
  by (cases "even n")
     (simp_all add: process_case_details_by_diary_number_def alternating_site_def
        lookup_found lookup_notfound solve_sum is_error_result_def)

lemma inner_loop_alternating_step:
  "inner_loop cpython alternating_site year st =
     (if continuous_empty_case st = 10 then Some (Inr st)
      else if even (current_diary_number st) then
        inner_loop cpython alternating_site year
          (st\<lparr>saved := saved st @ [(current_diary_number st, year)],
              current_diary_number := current_diary_number st + 1\<rparr>)
      else
        inner_loop cpython alternating_site year
          (st\<lparr>continuous_empty_case := continuous_empty_case st + 1,
              current_diary_number := current_diary_number st + 1\<rparr>))"
  by (subst inner_loop.simps) (simp add: lookup_alternating_site)

text \<open>
  C7, on the code. On a site where the odd diary numbers are not found and the
  even ones are, no two lookups in a row are without result. The loop of the year
  still ends: the counter is never reset by a successful lookup, so it reaches 10
  at diary number 19, the tenth miss overall. The loop does not end there either:
  it looks up diary number 20 first, and that lookup, which succeeds, is dropped
  by the \<open>break\<close> and not saved.
\<close>

theorem inner_loop_alternating_site:
  "inner_loop cpython alternating_site 2025
     \<lparr>current_diary_number = 1, continuous_empty_case = 0, saved = []\<rparr> =
   Some (Inr \<lparr>current_diary_number = 20, continuous_empty_case = 10,
     saved = [(2, 2025), (4, 2025), (6, 2025), (8, 2025), (10, 2025), (12, 2025),
              (14, 2025), (16, 2025), (18, 2025)]\<rparr>) \<and>
   process_case_details_by_diary_number cpython (alternating_site 19 2025) = Inr RNone \<and>
   process_case_details_by_diary_number cpython (alternating_site 20 2025) = Inr (RData 20)"
  by (simp add: inner_loop_alternating_step lookup_alternating_site)

section \<open>Properties of \<open>clean_header\<close>\<close>

































section \<open>Properties of the document order\<close>

lemma strptime_valid:
  "strptime_dby s = Some (y, m, d) \<Longrightarrow> valid_date y m d"
  by (auto simp: strptime_dby_def Let_def split: option.splits if_splits prod.splits)

lemma parse_order_date_ge_min: "parse_order_date f = Some d \<Longrightarrow> datetime_min \<le> d"
proof -
  assume p: "parse_order_date f = Some d"
  obtain y m dd where d: "d = (y, m, dd)" by (cases d) auto
  with p have "valid_date y m dd"
    by (auto simp: parse_order_date_def intro: strptime_valid)
  then have "1 \<le> y" "1 \<le> m" "1 \<le> dd" by (simp_all add: valid_date_def)
  then show ?thesis by (auto simp: d datetime_min_def)
qed

lemma key_undated: "parse_order_date f = None \<Longrightarrow> extract_date_from_filename f = datetime_min"
  by (simp add: extract_date_from_filename_def)

lemma key_dated: "parse_order_date f = Some d \<Longrightarrow> extract_date_from_filename f = d"
  by (simp add: extract_date_from_filename_def)

lemma sorted_keys: "sorted (map extract_date_from_filename (sort_pdf_files fs))"
  by (simp add: sort_pdf_files_def)

lemma keys_mono:
  assumes "i \<le> j" and "j < length (sort_pdf_files fs)"
  shows "extract_date_from_filename (sort_pdf_files fs ! i)
           \<le> extract_date_from_filename (sort_pdf_files fs ! j)"
proof -
  have "map extract_date_from_filename (sort_pdf_files fs) ! i
          \<le> map extract_date_from_filename (sort_pdf_files fs) ! j"
    using assms by (intro sorted_nth_mono [OF sorted_keys]) simp_all
  with assms show ?thesis by simp
qed

lemma key_sentinel_iff:
  "extract_date_from_filename f = datetime_min \<longleftrightarrow>
     parse_order_date f = None \<or> parse_order_date f = Some datetime_min"
  by (cases "parse_order_date f") (auto simp: extract_date_from_filename_def)

lemma sort_pdf_files_stable:
  "filter (\<lambda>f. extract_date_from_filename f = k) (sort_pdf_files fs)
     = filter (\<lambda>f. extract_date_from_filename f = k) fs"
  unfolding sort_pdf_files_def by (rule sort_key_stable)

text \<open>
  C2, as the code has it. Sorting the downloaded paths by the derived key
  permutes the list, puts the keys in ascending order and is stable: the files
  of any one key stand in the sorted list in the order they had before. A
  filename whose date cannot be parsed gets the key \<open>datetime.min\<close>, the first of
  January of the year 1, which no parsed date is below. So in the sorted list
  every undated file precedes every dated file whose date is after that
  sentinel, and the dated files appear in ascending date order. A file dated on
  the sentinel itself has the key of the undated files: the undated files and
  the files dated on the sentinel keep, among themselves, the order of the
  input.
\<close>

theorem sort_pdf_files_order:
  "mset (sort_pdf_files fs) = mset fs \<and>
   sorted (map extract_date_from_filename (sort_pdf_files fs)) \<and>
   (\<forall>k. filter (\<lambda>f. extract_date_from_filename f = k) (sort_pdf_files fs)
          = filter (\<lambda>f. extract_date_from_filename f = k) fs) \<and>
   filter (\<lambda>f. parse_order_date f = None \<or> parse_order_date f = Some datetime_min)
       (sort_pdf_files fs)
     = filter (\<lambda>f. parse_order_date f = None \<or> parse_order_date f = Some datetime_min) fs \<and>
   (\<forall>f. parse_order_date f = None \<longrightarrow> extract_date_from_filename f = datetime_min) \<and>
   (\<forall>f d. parse_order_date f = Some d \<longrightarrow>
      extract_date_from_filename f = d \<and> datetime_min \<le> d) \<and>
   (\<forall>i j d. i < length (sort_pdf_files fs) \<and> j < length (sort_pdf_files fs) \<and>
      parse_order_date (sort_pdf_files fs ! i) = None \<and>
      parse_order_date (sort_pdf_files fs ! j) = Some d \<and> d \<noteq> datetime_min
      \<longrightarrow> i < j) \<and>
   (\<forall>i j d e. i < j \<and> j < length (sort_pdf_files fs) \<and>
      parse_order_date (sort_pdf_files fs ! i) = Some d \<and>
      parse_order_date (sort_pdf_files fs ! j) = Some e
      \<longrightarrow> d \<le> e)"
proof (intro conjI allI impI)
  show "mset (sort_pdf_files fs) = mset fs"
    by (simp add: sort_pdf_files_def)
  show "sorted (map extract_date_from_filename (sort_pdf_files fs))"
    by (rule sorted_keys)
  show "filter (\<lambda>f. parse_order_date f = None \<or> parse_order_date f = Some datetime_min)
       (sort_pdf_files fs)
     = filter (\<lambda>f. parse_order_date f = None \<or> parse_order_date f = Some datetime_min) fs"
    using sort_pdf_files_stable [of datetime_min fs] by (simp only: key_sentinel_iff)
next
  fix k
  show "filter (\<lambda>f. extract_date_from_filename f = k) (sort_pdf_files fs)
          = filter (\<lambda>f. extract_date_from_filename f = k) fs"
    by (rule sort_pdf_files_stable)
next
  fix f
  assume "parse_order_date f = None"
  then show "extract_date_from_filename f = datetime_min" by (rule key_undated)
next
  fix f d
  assume p: "parse_order_date f = Some d"
  then show "extract_date_from_filename f = d" by (rule key_dated)
  from p show "datetime_min \<le> d" by (rule parse_order_date_ge_min)
next
  fix i j d
  assume a: "i < length (sort_pdf_files fs) \<and> j < length (sort_pdf_files fs) \<and>
      parse_order_date (sort_pdf_files fs ! i) = None \<and>
      parse_order_date (sort_pdf_files fs ! j) = Some d \<and> d \<noteq> datetime_min"
  show "i < j"
  proof (rule ccontr)
    assume "\<not> i < j"
    then have "j \<le> i" by simp
    with a have "extract_date_from_filename (sort_pdf_files fs ! j)
        \<le> extract_date_from_filename (sort_pdf_files fs ! i)"
      by (intro keys_mono) simp_all
    with a have "d \<le> datetime_min"
      by (simp add: key_undated key_dated)
    moreover from a have "datetime_min \<le> d"
      by (intro parse_order_date_ge_min [of "sort_pdf_files fs ! j"]) simp
    ultimately have "d = datetime_min" by (rule antisym)
    with a show False by simp
  qed
next
  fix i j d e
  assume a: "i < j \<and> j < length (sort_pdf_files fs) \<and>
      parse_order_date (sort_pdf_files fs ! i) = Some d \<and>
      parse_order_date (sort_pdf_files fs ! j) = Some e"
  then have "extract_date_from_filename (sort_pdf_files fs ! i)
        \<le> extract_date_from_filename (sort_pdf_files fs ! j)"
    by (intro keys_mono) simp_all
  with a show "d \<le> e" by (simp add: key_dated)
qed

lemma example_pdf_files_sorted:
  "sort_pdf_files example_pdf_files =
     [''case_pdfs/7_2020/b7e2notice.pdf'',
      ''case_pdfs/7_2020/51c0Order_20-Mar-2020.pdf'',
      ''case_pdfs/7_2020/9f3aOrder_05-Jan-2021.pdf'']"
  by code_simp

lemma example_pdf_files_dates:
  "parse_order_date ''case_pdfs/7_2020/b7e2notice.pdf'' = None"
  "parse_order_date ''case_pdfs/7_2020/51c0Order_20-Mar-2020.pdf'' = Some (2020, 3, 20)"
  "parse_order_date ''case_pdfs/7_2020/9f3aOrder_05-Jan-2021.pdf'' = Some (2021, 1, 5)"
  by code_simp+

theorem sort_pdf_files_order_witness:
  "sort_pdf_files example_pdf_files =
     [''case_pdfs/7_2020/b7e2notice.pdf'',
      ''case_pdfs/7_2020/51c0Order_20-Mar-2020.pdf'',
      ''case_pdfs/7_2020/9f3aOrder_05-Jan-2021.pdf''] \<and>
   extract_date_from_filename ''case_pdfs/7_2020/b7e2notice.pdf'' = datetime_min \<and>
   extract_date_from_filename ''case_pdfs/7_2020/51c0Order_20-Mar-2020.pdf'' = (2020, 3, 20) \<and>
   extract_date_from_filename ''case_pdfs/7_2020/9f3aOrder_05-Jan-2021.pdf'' = (2021, 1, 5) \<and>
   datetime_min \<le> (2020, 3, 20) \<and> ((2020, 3, 20) :: datetime) \<le> (2021, 1, 5)"
proof -
  note t = sort_pdf_files_order [of example_pdf_files]
  from t have u: "\<forall>f. parse_order_date f = None \<longrightarrow> extract_date_from_filename f = datetime_min"
    by blast
  from t have d: "\<forall>f d. parse_order_date f = Some d \<longrightarrow>
      extract_date_from_filename f = d \<and> datetime_min \<le> d"
    by blast
  from t have o: "\<forall>i j d e. i < j \<and> j < length (sort_pdf_files example_pdf_files) \<and>
      parse_order_date (sort_pdf_files example_pdf_files ! i) = Some d \<and>
      parse_order_date (sort_pdf_files example_pdf_files ! j) = Some e
      \<longrightarrow> d \<le> e"
    by blast
  have "((2020, 3, 20) :: datetime) \<le> (2021, 1, 5)"
    using o [rule_format, of 1 2 "(2020, 3, 20)" "(2021, 1, 5)"]
    by (simp add: example_pdf_files_sorted example_pdf_files_dates)
  with u [rule_format, OF example_pdf_files_dates(1)]
    d [rule_format, OF example_pdf_files_dates(2)]
    d [rule_format, OF example_pdf_files_dates(3)]
    example_pdf_files_sorted
  show ?thesis by simp
qed

text \<open>
  C2, as it is stated, fails on a file dated on the sentinel: its date parses,
  to the first of January of the year 1, and the sort leaves it before the
  undated file that follows it.
\<close>

theorem sentinel_dated_file_stays_first:
  "parse_order_date ''case_pdfs/7_2020/9f3aOrder_01-Jan-0001.pdf'' = Some (1, 1, 1) \<and>
   parse_order_date ''case_pdfs/7_2020/b7e2notice.pdf'' = None \<and>
   sort_pdf_files [''case_pdfs/7_2020/9f3aOrder_01-Jan-0001.pdf'',
                   ''case_pdfs/7_2020/b7e2notice.pdf''] =
     [''case_pdfs/7_2020/9f3aOrder_01-Jan-0001.pdf'', ''case_pdfs/7_2020/b7e2notice.pdf'']"
  by code_simp

end
